theory Spec2Isabelle
  imports Main "HOL-Library.Sublist"
begin

section \<open>Go strings: the library functions the program calls\<close>

text \<open>
  A Go string is a sequence of bytes, here a \<open>char list\<close>. The functions below follow
  the Go standard library (package \<open>strings\<close>); a missing substring is the index \<open>-1\<close>,
  as in Go.
\<close>

definition NL :: char where
  "NL = CHR 0x0A"

definition CR :: char where
  "CR = CHR 0x0D"

text \<open>\<open>strings.Index\<close>: the index of the first occurrence of \<open>sub\<close>, or \<open>-1\<close>.\<close>

fun Index :: "string \<Rightarrow> string \<Rightarrow> int" where
  "Index [] sub = (if sub = [] then 0 else -1)"
| "Index (c # cs) sub =
     (if prefix sub (c # cs) then 0
      else (let r = Index cs sub in if r < 0 then -1 else r + 1))"

text \<open>\<open>strings.LastIndex\<close>: the index of the last occurrence of \<open>sub\<close>, or \<open>-1\<close>.\<close>

fun LastIndex :: "string \<Rightarrow> string \<Rightarrow> int" where
  "LastIndex [] sub = (if sub = [] then 0 else -1)"
| "LastIndex (c # cs) sub =
     (let r = LastIndex cs sub
      in if r \<ge> 0 then r + 1 else if prefix sub (c # cs) then 0 else -1)"

definition Contains :: "string \<Rightarrow> string \<Rightarrow> bool" where
  "Contains s sub = (Index s sub \<ge> 0)"

text \<open>
  \<open>strings.Split(s, sep)\<close> for a one-byte separator (the program only splits at
  \<open>"\n"\<close>): the pieces between the separators, one more than there are separators.
\<close>

fun Split :: "string \<Rightarrow> char \<Rightarrow> string list" where
  "Split [] sep = [[]]"
| "Split (c # cs) sep =
     (if c = sep then [] # Split cs sep
      else (case Split cs sep of [] \<Rightarrow> [[c]] | l # ls \<Rightarrow> (c # l) # ls))"

fun Join :: "string list \<Rightarrow> string \<Rightarrow> string" where
  "Join [] sep = []"
| "Join [l] sep = l"
| "Join (l # ls) sep = l @ sep @ Join ls sep"

text \<open>The slice expression \<open>s[i:j]\<close> for \<open>0 \<le> i \<le> j \<le> len(s)\<close>.\<close>

definition slice :: "string \<Rightarrow> int \<Rightarrow> int \<Rightarrow> string" where
  "slice s i j = take (nat (j - i)) (drop (nat i) s)"

text \<open>
  \<open>strings.TrimSpace\<close> removes leading and trailing white space as Unicode defines it.
  On the UTF-8 bytes of a Go string the white-space runes are exactly the byte
  sequences of \<open>spaceRunes\<close>: U+0009..U+000D, U+0020, U+0085, U+00A0, U+1680,
  U+2000..U+200A, U+2028, U+2029, U+202F, U+205F, U+3000.
\<close>

definition spaceRunes :: "string list" where
  "spaceRunes =
     [[CHR 0x09], [CHR 0x0A], [CHR 0x0B], [CHR 0x0C], [CHR 0x0D], [CHR 0x20],
      [CHR 0xC2, CHR 0x85], [CHR 0xC2, CHR 0xA0],
      [CHR 0xE1, CHR 0x9A, CHR 0x80],
      [CHR 0xE2, CHR 0x80, CHR 0x80], [CHR 0xE2, CHR 0x80, CHR 0x81],
      [CHR 0xE2, CHR 0x80, CHR 0x82], [CHR 0xE2, CHR 0x80, CHR 0x83],
      [CHR 0xE2, CHR 0x80, CHR 0x84], [CHR 0xE2, CHR 0x80, CHR 0x85],
      [CHR 0xE2, CHR 0x80, CHR 0x86], [CHR 0xE2, CHR 0x80, CHR 0x87],
      [CHR 0xE2, CHR 0x80, CHR 0x88], [CHR 0xE2, CHR 0x80, CHR 0x89],
      [CHR 0xE2, CHR 0x80, CHR 0x8A],
      [CHR 0xE2, CHR 0x80, CHR 0xA8], [CHR 0xE2, CHR 0x80, CHR 0xA9],
      [CHR 0xE2, CHR 0x80, CHR 0xAF], [CHR 0xE2, CHR 0x81, CHR 0x9F],
      [CHR 0xE3, CHR 0x80, CHR 0x80]]"

text \<open>The number of bytes of the white-space rune \<open>s\<close> starts with (0 when it starts with none).\<close>

definition leadingSpace :: "string \<Rightarrow> nat" where
  "leadingSpace s = (case find (\<lambda>e. prefix e s) spaceRunes of None \<Rightarrow> 0 | Some e \<Rightarrow> length e)"

definition trailingSpace :: "string \<Rightarrow> nat" where
  "trailingSpace s = (case find (\<lambda>e. suffix e s) spaceRunes of None \<Rightarrow> 0 | Some e \<Rightarrow> length e)"

function TrimLeft :: "string \<Rightarrow> string" where
  "TrimLeft s = (if leadingSpace s = 0 \<or> s = [] then s else TrimLeft (drop (leadingSpace s) s))"
  by pat_completeness auto
termination
  by (relation "measure length") auto

declare TrimLeft.simps [simp del]

function TrimRight :: "string \<Rightarrow> string" where
  "TrimRight s =
     (if trailingSpace s = 0 \<or> s = [] then s
      else TrimRight (take (length s - trailingSpace s) s))"
  by pat_completeness auto
termination
  by (relation "measure length") auto

declare TrimRight.simps [simp del]

definition TrimSpace :: "string \<Rightarrow> string" where
  "TrimSpace s = TrimRight (TrimLeft s)"

text \<open>
  \<open>strings.ToLower\<close> on the ASCII letters. A rune outside ASCII never lowers to an ASCII
  letter other than \<open>i\<close> and \<open>k\<close>, so comparing the result against \<open>"y"\<close> and \<open>"yes"\<close>
  agrees with Go on every input.
\<close>

definition lowerByte :: "char \<Rightarrow> char" where
  "lowerByte c =
     (if of_char (CHR ''A'') \<le> (of_char c :: nat) \<and> (of_char c :: nat) \<le> of_char (CHR ''Z'')
      then char_of (of_char c + (32::nat)) else c)"

definition ToLower :: "string \<Rightarrow> string" where
  "ToLower s = map lowerByte s"

section \<open>bufio.Scanner with the default split function (ScanLines)\<close>

text \<open>
  \<open>bufio.NewScanner\<close> scans lines with a buffer of at most \<open>MaxScanTokenSize\<close> bytes.
  \<open>Scan\<close> applied to the bytes not yet consumed gives the next line (without its
  newline and without one trailing carriage return) and the bytes after it, or stops:
  at the end of the stream, or at a line that does not end within the buffer
  (\<open>ErrTooLong\<close>), after which the scanner yields nothing more.
\<close>

definition MaxScanTokenSize :: int where
  "MaxScanTokenSize = 64 * 1024"

definition dropCR :: "string \<Rightarrow> string" where
  "dropCR data = (if data \<noteq> [] \<and> last data = CR then butlast data else data)"

definition Scan :: "string \<Rightarrow> (string \<times> string) option" where
  "Scan data =
     (if data = [] then None
      else (let i = Index data [NL]
            in if i \<ge> 0
               then (if i \<ge> MaxScanTokenSize then None
                     else Some (dropCR (take (nat i) data), drop (nat i + 1) data))
               else (if int (length data) \<ge> MaxScanTokenSize then None
                     else Some (dropCR data, []))))"

section \<open>internal/logger: the tail read of the action log\<close>

definition maxHistoryBytes :: int where
  "maxHistoryBytes = 5 * 1024"

definition maxHistoryLines :: int where
  "maxHistoryLines = 50"

datatype io_error = OpenFailed | StatFailed | SeekFailed | ReadFailed

text \<open>
  What the operating system gives \<open>GetRecentHistory\<close> for the log path: one of the
  four failures the function checks for, or the bytes of the file.
\<close>

type_synonym log_file = "io_error + string"

text \<open>Lines 159 to 183: the last \<open>maxHistoryBytes\<close> bytes of the file (or all of it) and where they start.\<close>

definition readWindow :: "string \<Rightarrow> int \<times> string" where
  "readWindow file =
     (let fileSize = int (length file);
          readSize = (if fileSize < maxHistoryBytes then fileSize else maxHistoryBytes);
          startPos = (if fileSize - readSize < 0 then 0 else fileSize - readSize);
          buffer = take (nat readSize) (drop (nat startPos) file)
      in (startPos, buffer))"

text \<open>Lines 185 to 191: drop the partial first line of a window that starts inside the file.\<close>

definition dropPartialLine :: "int \<Rightarrow> string \<Rightarrow> string" where
  "dropPartialLine startPos content =
     (if startPos > 0
      then (let firstNewlineIndex = Index content [NL]
            in if firstNewlineIndex \<ge> 0
               then drop (nat (firstNewlineIndex + 1)) content
               else content)
      else content)"

text \<open>Lines 193 to 199: keep the last \<open>maxHistoryLines\<close> lines.\<close>

definition limitLines :: "string \<Rightarrow> string" where
  "limitLines content =
     (let lines = Split content NL;
          lines' = (if int (length lines) > maxHistoryLines
                    then drop (nat (int (length lines) - maxHistoryLines)) lines
                    else lines)
      in Join lines' [NL])"

definition GetRecentHistory :: "log_file \<Rightarrow> io_error + string" where
  "GetRecentHistory f =
     (case f of
        Inl e \<Rightarrow> Inl e
      | Inr file \<Rightarrow>
          (let (startPos, buffer) = readWindow file
           in Inr (limitLines (dropPartialLine startPos buffer))))"


section \<open>internal/shell: StreamCommand\<close>

datatype "stream" = Stdout | Stderr

datatype exec_error =
    StdoutPipeError string
  | StderrPipeError string
  | StartError string
  | CommandFailed string string


text \<open>
  What the operating system does with \<open>bash -c cmd\<close>: a pipe cannot be created, the
  process cannot be started, or it starts and writes the given bytes to its standard
  output and standard error and ends with the given error of \<open>Wait\<close> (\<open>None\<close> for exit
  status zero).
\<close>

datatype launch =
    NoStdoutPipe string
  | NoStderrPipe string
  | NoStart string
  | Started string string "string option"

text \<open>
  After \<open>Start\<close> three goroutines and the child process run concurrently: the two
  readers (lines 127 to 146), the caller (lines 149 to 163) and the child, which exits at
  some moment. Each reader is at one of five places: about to call \<open>scanner.Scan()\<close>,
  about to call \<open>outputHandler(line)\<close>, about to call
  \<open>combinedOutput.WriteString(line)\<close>, about to send on \<open>done\<close>, or finished.
\<close>

datatype thread = Reader "stream" | Caller | Child

datatype reader_pc = AtScan | AtHandler string | AtWrite string | AtSignal | ReaderDone

datatype caller_pc = AtRecvFirst | AtRecvSecond | AtWait | AtCollect | Returned

text \<open>
  \<open>unread\<close> holds, for each stream, the bytes the scanner has not yet delivered as a
  line. \<open>handlerCalls\<close> lists the calls of \<open>outputHandler\<close> in the order they happen
  and \<open>bufferWrites\<close> the writes to \<open>combinedOutput\<close>, each with the reader that made
  it. A call of the handler and a write to the buffer are one step each.
\<close>

record exec_state =
  unread :: "stream \<Rightarrow> string"
  rpc :: "stream \<Rightarrow> reader_pc"
  handlerCalls :: "(stream \<times> string) list"
  bufferWrites :: "(stream \<times> string) list"
  doneChan :: nat
  cpc :: caller_pc
  exited :: bool
  waitError :: "string option"
  waitResult :: "string option"
  returned :: "(string \<times> exec_error option) option"

definition combinedOutput :: "exec_state \<Rightarrow> string" where
  "combinedOutput s = concat (map snd (bufferWrites s))"

definition reader_step :: "stream \<Rightarrow> exec_state \<Rightarrow> exec_state" where
  "reader_step st s =
     (case rpc s st of
        AtScan \<Rightarrow>
          (case Scan (unread s st) of
             None \<Rightarrow> s\<lparr>rpc := (rpc s)(st := AtSignal)\<rparr>
           | Some (text, rest) \<Rightarrow>
               s\<lparr>unread := (unread s)(st := rest),
                 rpc := (rpc s)(st := AtHandler (text @ [NL]))\<rparr>)
      | AtHandler line \<Rightarrow>
          s\<lparr>handlerCalls := handlerCalls s @ [(st, line)],
            rpc := (rpc s)(st := AtWrite line)\<rparr>
      | AtWrite line \<Rightarrow>
          s\<lparr>bufferWrites := bufferWrites s @ [(st, line)],
            rpc := (rpc s)(st := AtScan)\<rparr>
      | AtSignal \<Rightarrow>
          (if doneChan s < 2
           then s\<lparr>doneChan := doneChan s + 1, rpc := (rpc s)(st := ReaderDone)\<rparr>
           else s)
      | ReaderDone \<Rightarrow> s)"

text \<open>
  The caller receives twice from \<open>done\<close> (a receive on the empty channel waits),
  then calls \<open>Wait\<close>, which returns once the child has exited, then reads the buffer
  and returns.
\<close>

definition caller_step :: "exec_state \<Rightarrow> exec_state" where
  "caller_step s =
     (case cpc s of
        AtRecvFirst \<Rightarrow>
          (if doneChan s > 0 then s\<lparr>doneChan := doneChan s - 1, cpc := AtRecvSecond\<rparr> else s)
      | AtRecvSecond \<Rightarrow>
          (if doneChan s > 0 then s\<lparr>doneChan := doneChan s - 1, cpc := AtWait\<rparr> else s)
      | AtWait \<Rightarrow>
          (if exited s then s\<lparr>waitResult := waitError s, cpc := AtCollect\<rparr> else s)
      | AtCollect \<Rightarrow>
          (let output = combinedOutput s
           in s\<lparr>returned :=
                  Some (case waitResult s of
                          Some e \<Rightarrow> (output, Some (CommandFailed e output))
                        | None \<Rightarrow> (output, None)),
                cpc := Returned\<rparr>)
      | Returned \<Rightarrow> s)"

fun step :: "thread \<Rightarrow> exec_state \<Rightarrow> exec_state" where
  "step (Reader st) s = reader_step st s"
| "step Caller s = caller_step s"
| "step Child s = s\<lparr>exited := True\<rparr>"

text \<open>A schedule names the thread that takes each step; a thread that waits does not move.\<close>

fun run :: "thread list \<Rightarrow> exec_state \<Rightarrow> exec_state" where
  "run [] s = s"
| "run (t # ts) s = run ts (step t s)"

definition started :: "string \<Rightarrow> string \<Rightarrow> string option \<Rightarrow> exec_state" where
  "started out err w =
     \<lparr>unread = (\<lambda>st. case st of Stdout \<Rightarrow> out | Stderr \<Rightarrow> err),
      rpc = (\<lambda>st. AtScan),
      handlerCalls = [], bufferWrites = [], doneChan = 0, cpc = AtRecvFirst,
      exited = False, waitError = w, waitResult = None, returned = None\<rparr>"

text \<open>
  The result of \<open>StreamCommand\<close> under a schedule: the lines given to \<open>outputHandler\<close>
  in call order, the returned string and the returned error; \<open>None\<close> when the call has
  not returned by the end of the schedule.
\<close>

record stream_result =
  handled :: "(stream \<times> string) list"
  outputStr :: string
  err :: "exec_error option"

definition StreamCommand :: "thread list \<Rightarrow> launch \<Rightarrow> stream_result option" where
  "StreamCommand sched l =
     (case l of
        NoStdoutPipe e \<Rightarrow> Some \<lparr>handled = [], outputStr = [], err = Some (StdoutPipeError e)\<rparr>
      | NoStderrPipe e \<Rightarrow> Some \<lparr>handled = [], outputStr = [], err = Some (StderrPipeError e)\<rparr>
      | NoStart e \<Rightarrow> Some \<lparr>handled = [], outputStr = [], err = Some (StartError e)\<rparr>
      | Started out er w \<Rightarrow>
          (let s = run sched (started out er w)
           in case returned s of
                None \<Rightarrow> None
              | Some (text, e) \<Rightarrow> Some \<lparr>handled = handlerCalls s, outputStr = text, err = e\<rparr>))"

text \<open>The first line of \<open>data\<close> does not end within the scanner's buffer.\<close>

definition tooLong :: "string \<Rightarrow> bool" where
  "tooLong data = (int (length (takeWhile (\<lambda>c. c \<noteq> NL) data)) \<ge> MaxScanTokenSize)"

text \<open>All the lines the scanner delivers from a stream, in order.\<close>

function scanAll :: "string \<Rightarrow> string list" where
  "scanAll data = (case Scan data of None \<Rightarrow> [] | Some (text, rest) \<Rightarrow> text # scanAll rest)"
  by pat_completeness auto
termination
  by (relation "measure length") (auto simp: Scan_def Let_def split: if_splits)

declare scanAll.simps [simp del]

text \<open>The entries of a tagged list that one stream contributed.\<close>

definition ofStream :: "stream \<Rightarrow> (stream \<times> string) list \<Rightarrow> string list" where
  "ofStream st xs = map snd (filter (\<lambda>x. fst x = st) xs)"

text \<open>A schedule under which the call returns: each reader runs alone, then the child exits.\<close>

definition sequentialSchedule :: "nat \<Rightarrow> thread list" where
  "sequentialSchedule n =
     replicate n (Reader Stdout) @ replicate n (Reader Stderr) @ [Child, Caller, Caller, Caller, Caller]"

text \<open>
  What holds in every state of a run. The readers that have finished are those whose
  signal is in the channel or has been received; a reader at its signal or finished has a
  scanner that has stopped; the caller is past \<open>Wait\<close> only after the child has
  exited; the lines written to the buffer by a reader are the lines it gave to the
  handler, but for one line in between the two calls; the lines given to the handler are
  the lines scanned so far.
\<close>

fun received :: "caller_pc \<Rightarrow> nat" where
  "received AtRecvFirst = 0"
| "received AtRecvSecond = 1"
| "received AtWait = 2"
| "received AtCollect = 2"
| "received Returned = 2"

definition finishedReaders :: "exec_state \<Rightarrow> nat" where
  "finishedReaders s =
     (if rpc s Stdout = ReaderDone then 1 else 0) + (if rpc s Stderr = ReaderDone then 1 else 0)"

fun pendingHandler :: "reader_pc \<Rightarrow> string list" where
  "pendingHandler (AtHandler line) = [line]"
| "pendingHandler pc = []"

fun pendingWrite :: "reader_pc \<Rightarrow> string list" where
  "pendingWrite (AtWrite line) = [line]"
| "pendingWrite pc = []"

definition signalInv :: "exec_state \<Rightarrow> bool" where
  "signalInv s = (finishedReaders s = doneChan s + received (cpc s))"

definition scanInv :: "exec_state \<Rightarrow> bool" where
  "scanInv s = (\<forall>st. rpc s st = AtSignal \<or> rpc s st = ReaderDone \<longrightarrow> Scan (unread s st) = None)"

definition waitInv :: "exec_state \<Rightarrow> bool" where
  "waitInv s =
     ((cpc s = AtCollect \<or> cpc s = Returned \<longrightarrow> exited s)
      \<and> (returned s \<noteq> None \<longrightarrow> cpc s = Returned))"

definition writeInv :: "exec_state \<Rightarrow> bool" where
  "writeInv s =
     (\<forall>st. ofStream st (handlerCalls s) = ofStream st (bufferWrites s) @ pendingWrite (rpc s st))"

definition lineInv :: "(stream \<Rightarrow> string) \<Rightarrow> exec_state \<Rightarrow> bool" where
  "lineInv content s =
     (\<forall>st. map (\<lambda>t. t @ [NL]) (scanAll (content st))
            = ofStream st (handlerCalls s) @ pendingHandler (rpc s st)
              @ map (\<lambda>t. t @ [NL]) (scanAll (unread s st)))"

definition returnInv :: "exec_state \<Rightarrow> bool" where
  "returnInv s =
     (signalInv s \<and> (\<forall>t e. returned s = Some (t, e) \<longrightarrow> cpc s = Returned \<and> t = combinedOutput s))"

section \<open>encoding/json: Unmarshal into a Command\<close>

text \<open>
  \<open>json.Unmarshal\<close> first checks that the whole input is one JSON value between optional
  white space, then stores it into the target. The parser below follows the JSON grammar
  of the Go scanner: objects, arrays, strings with their escapes, numbers, \<open>true\<close>,
  \<open>false\<close> and \<open>null\<close>. Bytes of a string literal from \<open>0x80\<close> on are kept as they
  are, which is what Go does with valid UTF-8. \<open>fuel\<close> bounds the nesting depth; the
  length of the input is always enough. The decoder's own limit of 10000 nesting levels is
  left out.
\<close>

datatype json =
    JNull
  | JBool bool
  | JNumber string
  | JString string
  | JArray "json list"
  | JObject "(string \<times> json) list"

definition DQ :: char where
  "DQ = CHR 0x22"

definition BSL :: char where
  "BSL = CHR 0x5C"

definition isJsonSpace :: "char \<Rightarrow> bool" where
  "isJsonSpace c = (c = CHR 0x20 \<or> c = CHR 0x09 \<or> c = CHR 0x0A \<or> c = CHR 0x0D)"

definition skipSpace :: "string \<Rightarrow> string" where
  "skipSpace s = dropWhile isJsonSpace s"

definition isDigit :: "char \<Rightarrow> bool" where
  "isDigit c = ((of_char (CHR ''0'') :: nat) \<le> of_char c \<and> (of_char c :: nat) \<le> of_char (CHR ''9''))"

definition hexValue :: "char \<Rightarrow> nat option" where
  "hexValue c =
     (let n = (of_char c :: nat)
      in if of_char (CHR ''0'') \<le> n \<and> n \<le> of_char (CHR ''9'') then Some (n - of_char (CHR ''0''))
         else if of_char (CHR ''a'') \<le> n \<and> n \<le> of_char (CHR ''f'') then Some (n - of_char (CHR ''a'') + 10)
         else if of_char (CHR ''A'') \<le> n \<and> n \<le> of_char (CHR ''F'') then Some (n - of_char (CHR ''A'') + 10)
         else None)"

text \<open>\<open>getu4\<close>: the code unit of an escape \<open>\uXXXX\<close> at the start of \<open>s\<close>.\<close>

definition getu4 :: "string \<Rightarrow> nat option" where
  "getu4 s =
     (case s of
        b # u # h1 # h2 # h3 # h4 # rest \<Rightarrow>
          (if b = BSL \<and> u = CHR ''u''
           then (case (hexValue h1, hexValue h2, hexValue h3, hexValue h4) of
                   (Some a, Some b, Some c, Some d) \<Rightarrow> Some (((a * 16 + b) * 16 + c) * 16 + d)
                 | _ \<Rightarrow> None)
           else None)
      | _ \<Rightarrow> None)"

text \<open>\<open>utf8.EncodeRune\<close> for a rune below \<open>0x110000\<close> that is not a surrogate.\<close>

definition EncodeRune :: "nat \<Rightarrow> string" where
  "EncodeRune r =
     (if r < 0x80 then [char_of r]
      else if r < 0x800 then [char_of (0xC0 + r div 64), char_of (0x80 + r mod 64)]
      else if r < 0x10000
      then [char_of (0xE0 + r div 4096), char_of (0x80 + (r div 64) mod 64), char_of (0x80 + r mod 64)]
      else [char_of (0xF0 + r div 262144), char_of (0x80 + (r div 4096) mod 64),
            char_of (0x80 + (r div 64) mod 64), char_of (0x80 + r mod 64)])"

definition ReplacementChar :: nat where
  "ReplacementChar = 0xFFFD"

definition isSurrogate :: "nat \<Rightarrow> bool" where
  "isSurrogate r = (0xD800 \<le> r \<and> r < 0xE000)"

text \<open>\<open>utf16.DecodeRune\<close>: the rune of a surrogate pair, or the replacement character.\<close>

definition DecodeRune16 :: "nat \<Rightarrow> nat \<Rightarrow> nat" where
  "DecodeRune16 r1 r2 =
     (if 0xD800 \<le> r1 \<and> r1 < 0xDC00 \<and> 0xDC00 \<le> r2 \<and> r2 < 0xE000
      then (r1 - 0xD800) * 1024 + (r2 - 0xDC00) + 0x10000
      else ReplacementChar)"

definition simpleEscape :: "char \<Rightarrow> char option" where
  "simpleEscape e =
     (if e = DQ \<or> e = BSL \<or> e = CHR ''/'' then Some e
      else if e = CHR ''b'' then Some (CHR 0x08)
      else if e = CHR ''f'' then Some (CHR 0x0C)
      else if e = CHR ''n'' then Some (CHR 0x0A)
      else if e = CHR ''r'' then Some (CHR 0x0D)
      else if e = CHR ''t'' then Some (CHR 0x09)
      else None)"

definition withPrefix :: "string \<Rightarrow> (string \<times> string) option \<Rightarrow> (string \<times> string) option" where
  "withPrefix p res = (case res of None \<Rightarrow> None | Some (t, rest) \<Rightarrow> Some (p @ t, rest))"

text \<open>
  A string literal after its opening quote: the bytes it denotes and the input after its
  closing quote. A control character, an unknown escape or a missing closing quote is a
  syntax error.
\<close>

function parseString :: "string \<Rightarrow> (string \<times> string) option" where
  "parseString [] = None"
| "parseString (c # cs) =
     (if c = DQ then Some ([], cs)
      else if c = BSL then
        (case cs of
           [] \<Rightarrow> None
         | e # r \<Rightarrow>
             if e = CHR ''u'' then
               (case getu4 (c # cs) of
                  None \<Rightarrow> None
                | Some rr \<Rightarrow>
                    if isSurrogate rr then
                      (case getu4 (drop 4 r) of
                         None \<Rightarrow> withPrefix (EncodeRune ReplacementChar) (parseString (drop 4 r))
                       | Some rr1 \<Rightarrow>
                           if DecodeRune16 rr rr1 \<noteq> ReplacementChar
                           then withPrefix (EncodeRune (DecodeRune16 rr rr1)) (parseString (drop 10 r))
                           else withPrefix (EncodeRune ReplacementChar) (parseString (drop 4 r)))
                    else withPrefix (EncodeRune rr) (parseString (drop 4 r)))
             else (case simpleEscape e of
                     None \<Rightarrow> None
                   | Some b \<Rightarrow> withPrefix [b] (parseString r)))
      else if (of_char c :: nat) < 0x20 then None
      else withPrefix [c] (parseString cs))"
  by pat_completeness auto
termination
  by (relation "measure length") auto

text \<open>A number: \<open>-? (0 | [1-9][0-9]*) (. [0-9]+)? ([eE] [+-]? [0-9]+)?\<close>.\<close>

definition parseDigits :: "string \<Rightarrow> (string \<times> string) option" where
  "parseDigits s =
     (if takeWhile isDigit s = [] then None else Some (takeWhile isDigit s, dropWhile isDigit s))"

definition parseFraction :: "string \<Rightarrow> (string \<times> string) option" where
  "parseFraction s =
     (case s of
        c # r \<Rightarrow> if c = CHR ''.'' then withPrefix [c] (parseDigits r) else Some ([], s)
      | [] \<Rightarrow> Some ([], s))"

definition parseExponent :: "string \<Rightarrow> (string \<times> string) option" where
  "parseExponent s =
     (case s of
        c # r \<Rightarrow>
          if c = CHR ''e'' \<or> c = CHR ''E''
          then (case r of
                  sg # r' \<Rightarrow>
                    if sg = CHR ''+'' \<or> sg = CHR ''-'' then withPrefix [c, sg] (parseDigits r')
                    else withPrefix [c] (parseDigits r)
                | [] \<Rightarrow> None)
          else Some ([], s)
      | [] \<Rightarrow> Some ([], s))"

definition parseInteger :: "string \<Rightarrow> (string \<times> string) option" where
  "parseInteger s =
     (case s of
        c # r \<Rightarrow> if c = CHR ''0'' then Some ([c], r) else parseDigits s
      | [] \<Rightarrow> None)"

definition parseNumber :: "string \<Rightarrow> (string \<times> string) option" where
  "parseNumber s =
     (let (sign, s0) = (case s of c # r \<Rightarrow> if c = CHR ''-'' then ([c], r) else ([], s) | [] \<Rightarrow> ([], s))
      in case parseInteger s0 of
           None \<Rightarrow> None
         | Some (i, s1) \<Rightarrow>
             (case parseFraction s1 of
                None \<Rightarrow> None
              | Some (f, s2) \<Rightarrow>
                  (case parseExponent s2 of
                     None \<Rightarrow> None
                   | Some (e, s3) \<Rightarrow> Some (sign @ i @ f @ e, s3))))"

fun parseValue :: "nat \<Rightarrow> string \<Rightarrow> (json \<times> string) option"
  and parseElements :: "nat \<Rightarrow> string \<Rightarrow> (json list \<times> string) option"
  and parseMembers :: "nat \<Rightarrow> string \<Rightarrow> ((string \<times> json) list \<times> string) option"
where
  "parseValue 0 s = None"
| "parseValue (Suc fuel) s =
     (case skipSpace s of
        [] \<Rightarrow> None
      | c # r \<Rightarrow>
          if c = CHR ''{'' then
            (case skipSpace r of
               [] \<Rightarrow> None
             | c' # r' \<Rightarrow>
                 if c' = CHR ''}'' then Some (JObject [], r')
                 else (case parseMembers fuel r of
                         None \<Rightarrow> None
                       | Some (ms, rest) \<Rightarrow> Some (JObject ms, rest)))
          else if c = CHR ''['' then
            (case skipSpace r of
               [] \<Rightarrow> None
             | c' # r' \<Rightarrow>
                 if c' = CHR '']'' then Some (JArray [], r')
                 else (case parseElements fuel r of
                         None \<Rightarrow> None
                       | Some (vs, rest) \<Rightarrow> Some (JArray vs, rest)))
          else if c = DQ then
            (case parseString r of
               None \<Rightarrow> None
             | Some (str, rest) \<Rightarrow> Some (JString str, rest))
          else if prefix ''true'' (c # r) then Some (JBool True, drop 3 r)
          else if prefix ''false'' (c # r) then Some (JBool False, drop 4 r)
          else if prefix ''null'' (c # r) then Some (JNull, drop 3 r)
          else (case parseNumber (c # r) of
                  None \<Rightarrow> None
                | Some (n, rest) \<Rightarrow> Some (JNumber n, rest)))"
| "parseElements 0 s = None"
| "parseElements (Suc fuel) s =
     (case parseValue fuel s of
        None \<Rightarrow> None
      | Some (v, r) \<Rightarrow>
          (case skipSpace r of
             [] \<Rightarrow> None
           | c # r' \<Rightarrow>
               if c = CHR '','' then
                 (case parseElements fuel r' of
                    None \<Rightarrow> None
                  | Some (vs, rest) \<Rightarrow> Some (v # vs, rest))
               else if c = CHR '']'' then Some ([v], r')
               else None))"
| "parseMembers 0 s = None"
| "parseMembers (Suc fuel) s =
     (case skipSpace s of
        [] \<Rightarrow> None
      | q # r \<Rightarrow>
          if q = DQ then
            (case parseString r of
               None \<Rightarrow> None
             | Some (k, r1) \<Rightarrow>
                 (case skipSpace r1 of
                    [] \<Rightarrow> None
                  | col # r2 \<Rightarrow>
                      if col = CHR '':'' then
                        (case parseValue fuel r2 of
                           None \<Rightarrow> None
                         | Some (v, r3) \<Rightarrow>
                             (case skipSpace r3 of
                                [] \<Rightarrow> None
                              | c # r4 \<Rightarrow>
                                  if c = CHR '','' then
                                    (case parseMembers fuel r4 of
                                       None \<Rightarrow> None
                                     | Some (ms, rest) \<Rightarrow> Some ((k, v) # ms, rest))
                                  else if c = CHR ''}'' then Some ([(k, v)], r4)
                                  else None))
                      else None))
          else None)"

text \<open>The whole input as one JSON value, or \<open>None\<close> for a syntax error.\<close>

definition parseJSON :: "string \<Rightarrow> json option" where
  "parseJSON data =
     (case parseValue (Suc (length data)) data of
        None \<Rightarrow> None
      | Some (v, rest) \<Rightarrow> if skipSpace rest = [] then Some v else None)"

section \<open>internal/aws: ParseCommandResponse\<close>

record Command =
  Safe :: bool
  Command :: string
  Reason :: string
  IsFinal :: bool
  NeedsOutput :: bool

text \<open>The zero value of the struct, which \<open>var cmd Command\<close> declares.\<close>

definition zeroCommand :: Command where
  "zeroCommand = \<lparr>Safe = False, Command = [], Reason = [], IsFinal = False, NeedsOutput = False\<rparr>"

datatype cmd_field = F_safe | F_command | F_reason | F_is_final | F_needs_output

text \<open>The \<open>json:"..."\<close> tags of the struct.\<close>

definition fieldNames :: "(string \<times> cmd_field) list" where
  "fieldNames =
     [(''safe'', F_safe), (''command'', F_command), (''reason'', F_reason),
      (''is_final'', F_is_final), (''needs_output'', F_needs_output)]"

text \<open>
  A key that equals no tag still names a field when it equals a tag under Unicode simple
  case folding: ASCII letters regardless of case, U+017F (bytes \<open>C5 BF\<close>) for \<open>s\<close> and
  U+212A (bytes \<open>E2 84 AA\<close>) for \<open>k\<close>.
\<close>

definition upperByte :: "char \<Rightarrow> char" where
  "upperByte c =
     (if of_char (CHR ''a'') \<le> (of_char c :: nat) \<and> (of_char c :: nat) \<le> of_char (CHR ''z'')
      then char_of (of_char c - (32::nat)) else c)"

function foldName :: "string \<Rightarrow> string" where
  "foldName [] = []"
| "foldName (c # cs) =
     (if prefix [CHR 0xC5, CHR 0xBF] (c # cs) then CHR ''S'' # foldName (drop 1 cs)
      else if prefix [CHR 0xE2, CHR 0x84, CHR 0xAA] (c # cs) then CHR ''K'' # foldName (drop 2 cs)
      else upperByte c # foldName cs)"
  by pat_completeness auto
termination
  by (relation "measure length") auto

definition fieldOf :: "string \<Rightarrow> cmd_field option" where
  "fieldOf key =
     (case map_of fieldNames key of
        Some f \<Rightarrow> Some f
      | None \<Rightarrow> map_of (map (\<lambda>(n, f). (foldName n, f)) fieldNames) (foldName key))"

datatype json_error = SyntaxError | UnmarshalTypeError string string

fun jsonKind :: "json \<Rightarrow> string" where
  "jsonKind JNull = ''null''"
| "jsonKind (JBool b) = ''bool''"
| "jsonKind (JNumber n) = ''number''"
| "jsonKind (JString s) = ''string''"
| "jsonKind (JArray vs) = ''array''"
| "jsonKind (JObject ms) = ''object''"

text \<open>
  Storing one value into a field: a value of the field's type is stored, \<open>null\<close> leaves
  the field as it is, and any other value leaves it as it is and is a type error. The
  decoder keeps the first type error and goes on.
\<close>

definition storeBool ::
  "(Command \<Rightarrow> bool \<Rightarrow> Command) \<Rightarrow> string \<Rightarrow> json \<Rightarrow> Command \<times> json_error option
     \<Rightarrow> Command \<times> json_error option" where
  "storeBool upd name v acc =
     (case v of
        JBool b \<Rightarrow> (upd (fst acc) b, snd acc)
      | JNull \<Rightarrow> acc
      | _ \<Rightarrow> (fst acc, (case snd acc of None \<Rightarrow> Some (UnmarshalTypeError (jsonKind v) name)
                                      | Some e \<Rightarrow> Some e)))"

definition storeString ::
  "(Command \<Rightarrow> string \<Rightarrow> Command) \<Rightarrow> string \<Rightarrow> json \<Rightarrow> Command \<times> json_error option
     \<Rightarrow> Command \<times> json_error option" where
  "storeString upd name v acc =
     (case v of
        JString s \<Rightarrow> (upd (fst acc) s, snd acc)
      | JNull \<Rightarrow> acc
      | _ \<Rightarrow> (fst acc, (case snd acc of None \<Rightarrow> Some (UnmarshalTypeError (jsonKind v) name)
                                      | Some e \<Rightarrow> Some e)))"

definition storeMember ::
  "Command \<times> json_error option \<Rightarrow> string \<times> json \<Rightarrow> Command \<times> json_error option" where
  "storeMember acc m =
     (case fieldOf (fst m) of
        None \<Rightarrow> acc
      | Some F_safe \<Rightarrow> storeBool (\<lambda>c b. c\<lparr>Safe := b\<rparr>) ''Command.safe'' (snd m) acc
      | Some F_command \<Rightarrow> storeString (\<lambda>c s. c\<lparr>Command := s\<rparr>) ''Command.command'' (snd m) acc
      | Some F_reason \<Rightarrow> storeString (\<lambda>c s. c\<lparr>Reason := s\<rparr>) ''Command.reason'' (snd m) acc
      | Some F_is_final \<Rightarrow> storeBool (\<lambda>c b. c\<lparr>IsFinal := b\<rparr>) ''Command.is_final'' (snd m) acc
      | Some F_needs_output \<Rightarrow>
          storeBool (\<lambda>c b. c\<lparr>NeedsOutput := b\<rparr>) ''Command.needs_output'' (snd m) acc)"

text \<open>
  Storing a JSON value into \<open>cmd\<close>: the members of an object in their order, nothing
  for \<open>null\<close>, a type error for any other value.
\<close>

definition decodeCommand :: "json \<Rightarrow> json_error + Command" where
  "decodeCommand v =
     (case v of
        JObject ms \<Rightarrow>
          (case foldl storeMember (zeroCommand, None) ms of
             (cmd, None) \<Rightarrow> Inr cmd
           | (cmd, Some e) \<Rightarrow> Inl e)
      | JNull \<Rightarrow> Inr zeroCommand
      | _ \<Rightarrow> Inl (UnmarshalTypeError (jsonKind v) ''Command''))"

definition Unmarshal :: "string \<Rightarrow> json_error + Command" where
  "Unmarshal data =
     (case parseJSON data of
        None \<Rightarrow> Inl SyntaxError
      | Some v \<Rightarrow> decodeCommand v)"

definition markdownStart :: string where
  "markdownStart = [CHR 0x60, CHR 0x60, CHR 0x60] @ ''json''"

definition markdownEnd :: string where
  "markdownEnd = [CHR 0x60, CHR 0x60, CHR 0x60]"

text \<open>Lines 173 to 187: the text between the fence markers, if there are any, without surrounding white space.\<close>

definition stripFence :: "string \<Rightarrow> string" where
  "stripFence responseText =
     (let jsonText = responseText;
          jsonText =
            (if Contains jsonText markdownStart
             then (let startIndex = Index jsonText markdownStart + int (length markdownStart);
                       endIndex = LastIndex jsonText markdownEnd
                   in if endIndex > startIndex then slice jsonText startIndex endIndex
                      else jsonText)
             else jsonText)
      in TrimSpace jsonText)"

definition ParseCommandResponse :: "string \<Rightarrow> json_error + Command" where
  "ParseCommandResponse responseText = Unmarshal (stripFence responseText)"

text \<open>A payload inside a markdown code fence, and a quoted JSON string without escapes.\<close>

definition fenced :: "string \<Rightarrow> string" where
  "fenced j = markdownStart @ [NL] @ j @ [NL] @ markdownEnd"

definition quoted :: "string \<Rightarrow> string" where
  "quoted s = DQ # s @ [DQ]"



section \<open>cmd/ai: the interaction loop of main\<close>

text \<open>
  The loop keeps the current query and the turn counter. The model also records what
  the loop does to the outside: the entries it appends to the log (without their time
  stamps), the requests it sends to the model backend (query and history), and the
  commands it hands to \<open>StreamCommand\<close>. What the program prints to the terminal is left
  out.
\<close>

datatype startup_failure = NoLogger | NoCurrentDir | NoFileList | NoClient

datatype app_error =
    StartupError startup_failure
  | HistoryError io_error
  | SuggestionError string
  | ParseError string json_error
  | ExecutionError exec_error

datatype log_entry = CommandEntry string | InfoEntry string | ErrorEntry app_error

record session =
  userQuery :: string
  commandCount :: nat
  logged :: "log_entry list"
  asked :: "(string \<times> string) list"
  executed :: "string list"

text \<open>
  What one turn of the loop meets outside the program: the log file as
  \<open>GetRecentHistory\<close> finds it, the result of \<open>waitWithSpinner\<close> (an error text or the
  model's response), the bytes waiting on standard input, and for \<open>StreamCommand\<close> the
  schedule of its goroutines and what the operating system does with the command.
\<close>

record turn_env =
  logFile :: log_file
  response :: "string + string"
  stdin :: string
  schedule :: "thread list"
  launched :: launch

datatype stop = TaskCompleted | UserCancelled | AskModeDone | Fatal

text \<open>
  \<open>os.Exit(1)\<close> ends the process with status 1; leaving \<open>main\<close> by \<open>break\<close> or
  \<open>return\<close> ends it with status 0.
\<close>

fun exitStatus :: "stop \<Rightarrow> int" where
  "exitStatus Fatal = 1"
| "exitStatus TaskCompleted = 0"
| "exitStatus UserCancelled = 0"
| "exitStatus AskModeDone = 0"

text \<open>
  A turn ends the program, or leads to the next turn, or never ends because
  \<open>StreamCommand\<close> does not return under the schedule.
\<close>

datatype turn_result = NextTurn session | Stopped stop session | Blocked session


definition SQ :: char where
  "SQ = CHR 0x27"

definition LogInfo :: "string \<Rightarrow> session \<Rightarrow> session" where
  "LogInfo message st = st\<lparr>logged := logged st @ [InfoEntry message]\<rparr>"

definition LogError :: "app_error \<Rightarrow> session \<Rightarrow> session" where
  "LogError e st = st\<lparr>logged := logged st @ [ErrorEntry e]\<rparr>"

definition LogCommand :: "string \<Rightarrow> session \<Rightarrow> session" where
  "LogCommand cmd st = st\<lparr>logged := logged st @ [CommandEntry cmd]\<rparr>"

text \<open>The verbs \<open>%d\<close> (of a length) and \<open>%t\<close> of \<open>fmt.Sprintf\<close>.\<close>

fun Itoa :: "nat \<Rightarrow> string" where
  "Itoa n = (if n < 10 then [char_of (48 + n)] else Itoa (n div 10) @ [char_of (48 + n mod 10)])"

declare Itoa.simps [simp del]

definition boolText :: "bool \<Rightarrow> string" where
  "boolText b = (if b then ''true'' else ''false'')"

text \<open>Lines 389 to 403: end the loop, or fold the command and its output into the next query.\<close>

definition decide :: "Command \<Rightarrow> string \<Rightarrow> session \<Rightarrow> turn_result" where
  "decide cmd out st =
     (if IsFinal cmd \<and> \<not> NeedsOutput cmd then Stopped TaskCompleted st
      else if NeedsOutput cmd
      then NextTurn (st\<lparr>userQuery :=
             ''I ran the command '' @ [SQ] @ Command cmd @ [SQ] @ '' and got the output:'' @ [NL]
             @ out @ [NL]
             @ ''Please provide the next command to continue with my original request: ''
             @ userQuery st\<rparr>)
      else NextTurn (st\<lparr>userQuery :=
             ''I successfully ran '' @ [SQ] @ Command cmd @ [SQ] @ ''. What'' @ [SQ]
             @ ''s the next command to continue with my original request: ''
             @ userQuery st\<rparr>))"

text \<open>
  Lines 367 to 387: \<open>StreamCommand\<close> first gives the command to the shell's log
  handler, which logs a command that is not empty; an error it returns is logged and
  the loop goes on.
\<close>

definition execute :: "Command \<Rightarrow> turn_env \<Rightarrow> session \<Rightarrow> turn_result" where
  "execute cmd env st =
     (let st = (if Command cmd \<noteq> [] then LogCommand (Command cmd) st else st);
          st = st\<lparr>executed := executed st @ [Command cmd]\<rparr>
      in case StreamCommand (schedule env) (launched env) of
           None \<Rightarrow> Blocked st
         | Some r \<Rightarrow>
             decide cmd (outputStr r)
               (case err r of
                  None \<Rightarrow> st
                | Some execErr \<Rightarrow> LogError (ExecutionError execErr) st))"

text \<open>
  Lines 357 to 359: a new scanner reads one line from standard input; \<open>Text\<close> is the
  empty string when there is none.
\<close>

definition readAnswer :: "string \<Rightarrow> string" where
  "readAnswer input = ToLower (case Scan input of None \<Rightarrow> [] | Some (text, rest) \<Rightarrow> text)"

text \<open>Lines 350 to 365: a command that is not marked safe runs only after the answer y or yes.\<close>

definition gate :: "Command \<Rightarrow> turn_env \<Rightarrow> session \<Rightarrow> turn_result" where
  "gate cmd env st =
     (if \<not> Safe cmd
      then (let answer = readAnswer (stdin env)
            in if answer \<noteq> ''y'' \<and> answer \<noteq> ''yes''
               then Stopped UserCancelled st
               else execute cmd env st)
      else execute cmd env st)"

text \<open>
  Lines 277 to 297: count the turn, fetch the recent history (going on without it when
  that fails) and send the request.
\<close>

definition request :: "turn_env \<Rightarrow> session \<Rightarrow> session" where
  "request env st0 =
     (let st = st0\<lparr>commandCount := commandCount st0 + 1\<rparr>;
          st = LogInfo ''Asking Claude for command suggestion...'' st;
          (commandHistory, st) =
             (case GetRecentHistory (logFile env) of
                Inl histErr \<Rightarrow> ([], LogError (HistoryError histErr) st)
              | Inr history \<Rightarrow>
                  (history,
                   LogInfo (''Including '' @ Itoa (length history)
                            @ '' bytes of command history for context'') st))
      in st\<lparr>asked := asked st @ [(userQuery st, commandHistory)]\<rparr>)"

text \<open>Lines 311 to 316: log the suggestion.\<close>

definition logSuggestion :: "Command \<Rightarrow> session \<Rightarrow> session" where
  "logSuggestion cmd st =
     (let st = LogInfo (''Suggested Command: '' @ Command cmd) st;
          st = LogInfo (''Reason: '' @ Reason cmd) st;
          st = LogInfo (''Safe: '' @ boolText (Safe cmd)) st;
          st = LogInfo (''Is Final: '' @ boolText (IsFinal cmd)) st
      in LogInfo (''Needs Output: '' @ boolText (NeedsOutput cmd)) st)"

text \<open>One pass through the body of the loop, lines 277 to 403.\<close>

definition turn :: "bool \<Rightarrow> turn_env \<Rightarrow> session \<Rightarrow> turn_result" where
  "turn askModeOnly env st0 =
     (let st = request env st0
      in case response env of
           Inl e \<Rightarrow> Stopped Fatal (LogError (SuggestionError e) st)
         | Inr modelResponse \<Rightarrow>
             (case ParseCommandResponse modelResponse of
                Inl e \<Rightarrow> Stopped Fatal (LogError (ParseError modelResponse e) st)
              | Inr cmd \<Rightarrow>
                  (let st = logSuggestion cmd st
                   in if askModeOnly then Stopped AskModeDone st else gate cmd env st)))"

text \<open>
  The loop over the turns the environment provides. \<open>None\<close>: the program has not
  ended, because a command does not return or because the loop is still running after
  the last turn given.
\<close>

fun loop :: "bool \<Rightarrow> turn_env list \<Rightarrow> session \<Rightarrow> (stop \<times> session) option" where
  "loop askModeOnly [] st = None"
| "loop askModeOnly (env # envs) st =
     (case turn askModeOnly env st of
        NextTurn st' \<Rightarrow> loop askModeOnly envs st'
      | Stopped r st' \<Rightarrow> Some (r, st')
      | Blocked st' \<Rightarrow> None)"

text \<open>\<open>filepath.Base\<close>: the last element of a path.\<close>

definition Base :: "string \<Rightarrow> string" where
  "Base path =
     (if path = [] then ''.''
      else (let p = rev (dropWhile (\<lambda>c. c = CHR ''/'') (rev path))
            in if p = [] then ''/'' else rev (takeWhile (\<lambda>c. c \<noteq> CHR ''/'') (rev p))))"

record startup =
  args :: "string list"
  failure :: "startup_failure option"

definition newSession :: session where
  "newSession = \<lparr>userQuery = [], commandCount = 0, logged = [], asked = [], executed = []\<rparr>"

text \<open>
  \<open>main\<close>, lines 212 to 405: the exit status of the process and the session at its end.
  The choice of the model backend and its log lines are left out.
\<close>

definition main :: "startup \<Rightarrow> turn_env list \<Rightarrow> (int \<times> session) option" where
  "main su envs =
     (if length (args su) < 2 then Some (1, newSession)
      else (case failure su of
              Some NoLogger \<Rightarrow> Some (1, newSession)
            | Some f \<Rightarrow> Some (1, LogError (StartupError f) newSession)
            | None \<Rightarrow>
                (let askModeOnly = (Base (hd (args su)) = ''ask'');
                     query = Join (tl (args su)) '' '';
                     st = LogInfo ((if askModeOnly then ''Ask Mode: '' else ''User Query: '') @ query)
                            (newSession\<lparr>userQuery := query\<rparr>)
                 in (case loop askModeOnly envs st of
                       None \<Rightarrow> None
                     | Some (r, st') \<Rightarrow> Some (exitStatus r, st')))))"

text \<open>The commands among the entries of the log.\<close>

definition commandEntries :: "log_entry list \<Rightarrow> string list" where
  "commandEntries es = concat (map (\<lambda>e. case e of CommandEntry c \<Rightarrow> [c] | _ \<Rightarrow> []) es)"

section \<open>internal/logger: the calls of several goroutines under the mutex\<close>

text \<open>
  A call of a method of the logger, with the time stamp it reads and its argument. The
  writing methods format one entry and write it to the log file; \<open>entryOf\<close> gives its
  bytes (\<open>logHistory\<close> is true and \<open>logFile\<close> is set from \<open>New\<close> on).
\<close>

datatype log_call =
    CallLogCommand string string
  | CallLogOutput string
  | CallLogStreamOutput string
  | CallLogInfo string string
  | CallLogError string string
  | CallGetRecentHistory

fun entryOf :: "log_call \<Rightarrow> string" where
  "entryOf (CallLogCommand timestamp cmd) =
     [NL] @ ''['' @ timestamp @ ''] Command: '' @ cmd @ [NL]"
| "entryOf (CallLogOutput out) = out"
| "entryOf (CallLogStreamOutput line) = line"
| "entryOf (CallLogInfo timestamp message) = ''['' @ timestamp @ ''] Info: '' @ message @ [NL]"
| "entryOf (CallLogError timestamp e) = ''['' @ timestamp @ ''] Error: '' @ e @ [NL]"
| "entryOf CallGetRecentHistory = []"

text \<open>
  Every method begins with \<open>l.mutex.Lock()\<close> and ends, by \<open>defer\<close>, with
  \<open>l.mutex.Unlock()\<close>. A goroutine is outside a call, or inside a writing call with the
  bytes of its entry already written and those still to write (the write may be cut
  anywhere, so it goes byte by byte), or inside \<open>GetRecentHistory\<close> before or after its
  read of the file.
\<close>

datatype log_pc = Outside | Writing string string | Reading | ReadDone

text \<open>
  The state: the bytes of the log file, the goroutine that holds the mutex, for every
  goroutine where it is and the calls it still has to make, the entries whose call has
  returned, in order, and the results that calls of \<open>GetRecentHistory\<close> returned.
\<close>

record logger_state =
  logBytes :: string
  holder :: "nat option"
  goroutines :: "nat \<Rightarrow> log_pc \<times> log_call list"
  completed :: "string list"
  tails :: "(nat \<times> (io_error + string)) list"

text \<open>One step of goroutine \<open>i\<close>; a goroutine that waits for the mutex does not move.\<close>

definition logger_step :: "nat \<Rightarrow> logger_state \<Rightarrow> logger_state" where
  "logger_step i s =
     (case goroutines s i of
        (Outside, []) \<Rightarrow> s
      | (Outside, call # calls) \<Rightarrow>
          (if holder s = None
           then s\<lparr>holder := Some i,
                  goroutines := (goroutines s)
                    (i := (if call = CallGetRecentHistory then Reading
                           else Writing [] (entryOf call), calls))\<rparr>
           else s)
      | (Writing written [], calls) \<Rightarrow>
          s\<lparr>holder := None, completed := completed s @ [written],
            goroutines := (goroutines s)(i := (Outside, calls))\<rparr>
      | (Writing written (b # bs), calls) \<Rightarrow>
          s\<lparr>logBytes := logBytes s @ [b],
            goroutines := (goroutines s)(i := (Writing (written @ [b]) bs, calls))\<rparr>
      | (Reading, calls) \<Rightarrow>
          s\<lparr>tails := tails s @ [(i, GetRecentHistory (Inr (logBytes s)))],
            goroutines := (goroutines s)(i := (ReadDone, calls))\<rparr>
      | (ReadDone, calls) \<Rightarrow>
          s\<lparr>holder := None, goroutines := (goroutines s)(i := (Outside, calls))\<rparr>)"

fun logger_run :: "nat list \<Rightarrow> logger_state \<Rightarrow> logger_state" where
  "logger_run [] s = s"
| "logger_run (i # sched) s = logger_run sched (logger_step i s)"

definition logger_init :: "string \<Rightarrow> (nat \<Rightarrow> log_call list) \<Rightarrow> logger_state" where
  "logger_init file0 calls =
     \<lparr>logBytes = file0, holder = None, goroutines = (\<lambda>i. (Outside, calls i)),
      completed = [], tails = []\<rparr>"

text \<open>The bytes of the entry that is being written.\<close>

definition partialEntry :: "logger_state \<Rightarrow> string" where
  "partialEntry s =
     (case holder s of
        None \<Rightarrow> []
      | Some i \<Rightarrow> (case fst (goroutines s i) of Writing written todo \<Rightarrow> written | _ \<Rightarrow> []))"

text \<open>
  What holds in every state: the goroutine inside a call is the one that holds the
  mutex; the file is the initial file, the completed entries and the part written of the
  entry in progress; every result of \<open>GetRecentHistory\<close> is the tail of the initial file
  followed by some of the completed entries, the first ones.
\<close>

definition loggerInv :: "string \<Rightarrow> logger_state \<Rightarrow> bool" where
  "loggerInv file0 s =
     ((\<forall>i. (fst (goroutines s i) \<noteq> Outside) = (holder s = Some i))
      \<and> logBytes s = file0 @ concat (completed s) @ partialEntry s
      \<and> (\<forall>x \<in> set (tails s).
            \<exists>es. prefix es (completed s) \<and> snd x = GetRecentHistory (Inr (file0 @ concat es))))"

text \<open>
  Every goroutine has the rest of its calls still to make; the entry in progress and the
  completed entries are entries of its calls.
\<close>

definition callsInv :: "(nat \<Rightarrow> log_call list) \<Rightarrow> logger_state \<Rightarrow> bool" where
  "callsInv calls s =
     ((\<forall>i. suffix (snd (goroutines s i)) (calls i))
      \<and> (\<forall>i written todo. fst (goroutines s i) = Writing written todo
            \<longrightarrow> (\<exists>c \<in> set (calls i). written @ todo = entryOf c))
      \<and> (\<forall>e \<in> set (completed s). \<exists>i. \<exists>c \<in> set (calls i). e = entryOf c))"


section \<open>Properties of the string functions and of the tail read\<close>

lemma Index_char_absent: "c \<notin> set s \<Longrightarrow> Index s [c] = -1"
  by (induction s) (auto simp: Let_def)































section \<open>Properties of ParseCommandResponse\<close>

lemma Index_prefix: "Index (sub @ x) sub = 0"
proof (cases "sub @ x")
  case Nil
  then show ?thesis by simp
next
  case (Cons a list)
  have "prefix sub (sub @ x)" by simp
  with Cons show ?thesis by simp
qed

lemma LastIndex_short: "length s < length sub \<Longrightarrow> LastIndex s sub = -1"
  by (induction s) (auto simp: Let_def dest: prefix_length_le)

lemma LastIndex_self: "sub \<noteq> [] \<Longrightarrow> LastIndex sub sub = 0"
  by (cases sub) (auto simp: Let_def LastIndex_short)

lemma LastIndex_suffix: "sub \<noteq> [] \<Longrightarrow> LastIndex (xs @ sub) sub = int (length xs)"
  by (induction xs) (auto simp: Let_def LastIndex_self)

lemma leadingSpace_NL: "leadingSpace (NL # x) = 1"
  by (simp add: leadingSpace_def spaceRunes_def NL_def)

lemma TrimLeft_NL: "TrimLeft (NL # x) = TrimLeft x"
  by (subst TrimLeft.simps) (simp add: leadingSpace_NL)

lemma trailingSpace_NL: "trailingSpace (x @ [NL]) = 1"
  by (simp add: trailingSpace_def spaceRunes_def NL_def suffix_to_prefix)

lemma TrimRight_NL: "TrimRight (x @ [NL]) = TrimRight x"
  by (subst TrimRight.simps) (simp add: trailingSpace_NL)

lemma TrimLeft_Nil: "TrimLeft [] = []"
  by (subst TrimLeft.simps) simp

lemma spaceRunes_last: "e \<in> set spaceRunes \<Longrightarrow> last e = NL \<Longrightarrow> e = [NL]"
  by (auto simp: spaceRunes_def NL_def)

lemma prefix_snoc_NL:
  assumes "e \<in> set spaceRunes" "j \<noteq> []"
  shows "prefix e (j @ [NL]) = prefix e j"
proof -
  have "e \<noteq> j @ [NL]"
  proof
    assume "e = j @ [NL]"
    then have "last e = NL" by simp
    with assms(1) have "e = [NL]" by (rule spaceRunes_last)
    with \<open>e = j @ [NL]\<close> assms(2) show False by simp
  qed
  then show ?thesis by simp
qed

lemma leadingSpace_snoc_NL: "j \<noteq> [] \<Longrightarrow> leadingSpace (j @ [NL]) = leadingSpace j"
proof -
  assume "j \<noteq> []"
  then have "find (\<lambda>e. prefix e (j @ [NL])) spaceRunes = find (\<lambda>e. prefix e j) spaceRunes"
    using prefix_snoc_NL[of _ j] by (intro find_cong) (simp_all del: prefix_snoc)
  then show ?thesis by (simp add: leadingSpace_def)
qed

lemma leadingSpace_le: "leadingSpace s \<le> length s"
  by (auto simp: leadingSpace_def find_Some_iff prefix_length_le split: option.splits)

lemma TrimSpace_snoc_NL: "TrimRight (TrimLeft (j @ [NL])) = TrimRight (TrimLeft j)"
proof (induction j rule: TrimLeft.induct)
  case (1 s)
  show ?case
  proof (cases "s = []")
    case True
    then show ?thesis by (simp add: TrimLeft_NL TrimLeft_Nil)
  next
    case ne: False
    show ?thesis
    proof (cases "leadingSpace s = 0")
      case True
      then have "TrimLeft s = s" by (subst TrimLeft.simps) simp
      moreover have "TrimLeft (s @ [NL]) = s @ [NL]"
        using True ne by (subst TrimLeft.simps) (simp add: leadingSpace_snoc_NL)
      ultimately show ?thesis by (simp add: TrimRight_NL)
    next
      case False
      let ?w = "leadingSpace s"
      have l: "TrimLeft s = TrimLeft (drop ?w s)"
        using False ne by (subst TrimLeft.simps) simp
      have "TrimLeft (s @ [NL]) = TrimLeft (drop ?w (s @ [NL]))"
        using False ne by (subst TrimLeft.simps) (simp add: leadingSpace_snoc_NL)
      also have "drop ?w (s @ [NL]) = drop ?w s @ [NL]"
        using leadingSpace_le[of s] by simp
      finally show ?thesis using 1 False ne l by simp
    qed
  qed
qed

lemma TrimSpace_lines: "TrimSpace (NL # j @ [NL]) = TrimSpace j"
  by (simp add: TrimSpace_def TrimLeft_NL TrimSpace_snoc_NL)

lemma stripFence_fenced: "stripFence (fenced j) = TrimSpace j"
proof -
  have c: "Contains (fenced j) markdownStart"
    by (simp add: Contains_def fenced_def Index_prefix)
  have i: "Index (fenced j) markdownStart = 0"
    by (simp add: fenced_def Index_prefix)
  have "fenced j = (markdownStart @ [NL] @ j @ [NL]) @ markdownEnd"
    by (simp add: fenced_def)
  then have "LastIndex (fenced j) markdownEnd = int (length (markdownStart @ [NL] @ j @ [NL]))"
    by (simp only: LastIndex_suffix[of markdownEnd, unfolded markdownEnd_def, simplified, folded markdownEnd_def])
  then have l: "LastIndex (fenced j) markdownEnd = 9 + int (length j)"
    by (simp add: markdownStart_def)
  have s: "slice (fenced j) 7 (9 + int (length j)) = NL # j @ [NL]"
    by (simp add: slice_def fenced_def markdownStart_def nat_add_distrib)
  show ?thesis
    using c i l s by (simp add: stripFence_def Let_def TrimSpace_lines markdownStart_def[THEN arg_cong[where f = length]])
qed

lemma stripFence_bare: "\<not> Contains j markdownStart \<Longrightarrow> stripFence j = TrimSpace j"
  by (simp add: stripFence_def)

text \<open>
  Claim C7, as the code has it. For every payload \<open>j\<close> that does not contain the fence
  opener, parsing \<open>j\<close> inside a markdown code fence gives the same result (the same
  Command, or the same error) as parsing \<open>j\<close> bare.
\<close>

theorem ParseCommandResponse_fence:
  "\<not> Contains j markdownStart \<Longrightarrow> ParseCommandResponse (fenced j) = ParseCommandResponse j"
  by (simp add: ParseCommandResponse_def stripFence_fenced stripFence_bare)


text \<open>
  Claim C7 as stated fails for a payload that itself contains the fence markers inside a
  string: the payload decodes into a Command whose command text holds them; inside a fence
  it parses to that Command, but bare the text between its own markers, \<open>{}\<close>, is parsed
  instead and gives the zero Command.
\<close>

theorem ParseCommandResponse_fence_counterexample:
  "Unmarshal (''{'' @ quoted ''command'' @ '':'' @ quoted (markdownStart @ ''{}'' @ markdownEnd) @ ''}'')
     = Inr (zeroCommand\<lparr>Command := markdownStart @ ''{}'' @ markdownEnd\<rparr>)
   \<and> ParseCommandResponse
       (fenced (''{'' @ quoted ''command'' @ '':'' @ quoted (markdownStart @ ''{}'' @ markdownEnd) @ ''}''))
     = Inr (zeroCommand\<lparr>Command := markdownStart @ ''{}'' @ markdownEnd\<rparr>)
   \<and> ParseCommandResponse
       (''{'' @ quoted ''command'' @ '':'' @ quoted (markdownStart @ ''{}'' @ markdownEnd) @ ''}'')
     = Inr zeroCommand"
  by code_simp

theorem ParseCommandResponse_fence_witness:
  "\<not> Contains (''{'' @ quoted ''safe'' @ '':true,'' @ quoted ''command'' @ '':'' @ quoted ''ls''
        @ '','' @ quoted ''reason'' @ '':'' @ quoted ''list'' @ '','' @ quoted ''is_final''
        @ '':true,'' @ quoted ''needs_output'' @ '':false}'') markdownStart
   \<and> ParseCommandResponse (fenced (''{'' @ quoted ''safe'' @ '':true,'' @ quoted ''command'' @ '':''
        @ quoted ''ls'' @ '','' @ quoted ''reason'' @ '':'' @ quoted ''list'' @ '',''
        @ quoted ''is_final'' @ '':true,'' @ quoted ''needs_output'' @ '':false}''))
     = Inr \<lparr>Safe = True, Command = ''ls'', Reason = ''list'', IsFinal = True, NeedsOutput = False\<rparr>"
proof -
  let ?j = "''{'' @ quoted ''safe'' @ '':true,'' @ quoted ''command'' @ '':'' @ quoted ''ls''
        @ '','' @ quoted ''reason'' @ '':'' @ quoted ''list'' @ '','' @ quoted ''is_final''
        @ '':true,'' @ quoted ''needs_output'' @ '':false}''"
  have h: "\<not> Contains ?j markdownStart" by code_simp
  have "ParseCommandResponse ?j
      = Inr \<lparr>Safe = True, Command = ''ls'', Reason = ''list'', IsFinal = True, NeedsOutput = False\<rparr>"
    by code_simp
  with h ParseCommandResponse_fence[OF h] show ?thesis by simp
qed

subsection \<open>Storing an object into the struct\<close>

















section \<open>Running StreamCommand under a given schedule\<close>

lemmas shell_eval =
  started_def reader_step_def caller_step_def Scan_def NL_def CR_def dropCR_def
  MaxScanTokenSize_def combinedOutput_def

lemma StreamCommand_Started:
  "returned (run sched (started out er w)) = Some (t, e) \<Longrightarrow>
   handlerCalls (run sched (started out er w)) = h \<Longrightarrow>
   StreamCommand sched (Started out er w) = Some \<lparr>handled = h, outputStr = t, err = e\<rparr>"
  by (simp add: StreamCommand_def)

lemma sequentialSchedule_5:
  "sequentialSchedule 5 =
     [Reader Stdout, Reader Stdout, Reader Stdout, Reader Stdout, Reader Stdout,
      Reader Stderr, Reader Stderr, Reader Stderr, Reader Stderr, Reader Stderr,
      Child, Caller, Caller, Caller, Caller]"
  by (simp add: sequentialSchedule_def eval_nat_numeral)

section \<open>Properties of the interaction loop\<close>

lemma turn_parsed:
  "response env = Inr text \<Longrightarrow> ParseCommandResponse text = Inr cmd \<Longrightarrow>
   turn ask env st =
     (if ask then Stopped AskModeDone (logSuggestion cmd (request env st))
      else gate cmd env (logSuggestion cmd (request env st)))"
  by (simp add: turn_def)



lemma gate_declined:
  "\<not> Safe cmd \<Longrightarrow> readAnswer (stdin env) \<noteq> ''y'' \<Longrightarrow> readAnswer (stdin env) \<noteq> ''yes'' \<Longrightarrow>
   gate cmd env st = Stopped UserCancelled st"
  by (simp add: gate_def Let_def)









lemma executed_logSuggestion: "executed (logSuggestion cmd st) = executed st"
  by (simp add: logSuggestion_def LogInfo_def Let_def)

lemma executed_request: "executed (request env st) = executed st"
  by (simp add: request_def LogInfo_def LogError_def Let_def split: sum.splits)

lemma commandEntries_append:
  "commandEntries (xs @ ys) = commandEntries xs @ commandEntries ys"
  by (simp add: commandEntries_def)

lemma commandEntries_logSuggestion:
  "commandEntries (logged (logSuggestion cmd st)) = commandEntries (logged st)"
  by (simp add: logSuggestion_def LogInfo_def Let_def commandEntries_append)
     (simp add: commandEntries_def)

lemma commandEntries_request:
  "commandEntries (logged (request env st)) = commandEntries (logged st)"
  by (simp add: request_def LogInfo_def LogError_def Let_def commandEntries_append split: sum.splits)
     (simp add: commandEntries_def)

text \<open>
  Claim C9. When the suggestion is not marked safe and the answer read from standard
  input, in lower case, is neither \<open>y\<close> nor \<open>yes\<close>, the turn ends the program as
  cancelled by the user, with exit status zero, and the command is not handed to
  \<open>StreamCommand\<close> nor logged as a command.
\<close>

theorem declined_command_is_not_run:
  assumes "response env = Inr text" and "ParseCommandResponse text = Inr cmd"
    and "\<not> Safe cmd"
    and "readAnswer (stdin env) \<noteq> ''y''" and "readAnswer (stdin env) \<noteq> ''yes''"
  shows "(\<exists>st'. turn False env st = Stopped UserCancelled st'
           \<and> loop False (env # envs) st = Some (UserCancelled, st')
           \<and> exitStatus UserCancelled = 0
           \<and> executed st' = executed st
           \<and> commandEntries (logged st') = commandEntries (logged st))
         \<and> (2 \<le> length (args su) \<and> failure su = None \<and> Base (hd (args su)) \<noteq> ''ask''
             \<longrightarrow> (\<exists>st'. main su (env # envs) = Some (0, st') \<and> executed st' = []))"
proof -
  have t: "turn False env s = Stopped UserCancelled (logSuggestion cmd (request env s))" for s
    using assms by (simp add: turn_parsed gate_declined)
  have l: "loop False (env # envs) s = Some (UserCancelled, logSuggestion cmd (request env s))" for s
    by (simp add: t)
  have a: "\<exists>st'. turn False env st = Stopped UserCancelled st'
           \<and> loop False (env # envs) st = Some (UserCancelled, st')
           \<and> exitStatus UserCancelled = 0
           \<and> executed st' = executed st
           \<and> commandEntries (logged st') = commandEntries (logged st)"
    by (rule exI[of _ "logSuggestion cmd (request env st)"])
       (simp add: t l executed_logSuggestion executed_request commandEntries_logSuggestion
          commandEntries_request)
  have b: "\<exists>st'. main su (env # envs) = Some (0, st') \<and> executed st' = []"
    if "2 \<le> length (args su) \<and> failure su = None \<and> Base (hd (args su)) \<noteq> ''ask''"
  proof -
    let ?q = "Join (tl (args su)) '' ''"
    let ?st = "LogInfo (''User Query: '' @ ?q) (newSession\<lparr>userQuery := ?q\<rparr>)"
    from that have "main su (env # envs) = Some (0, logSuggestion cmd (request env ?st))"
      by (simp add: main_def Let_def l del: loop.simps)
    moreover have "executed (logSuggestion cmd (request env ?st)) = []"
      by (simp add: executed_logSuggestion executed_request LogInfo_def newSession_def)
    ultimately show ?thesis by simp
  qed
  from a b show ?thesis by blast
qed

theorem declined_command_is_not_run_witness:
  "readAnswer (''No'' @ [NL]) \<noteq> ''y'' \<and> readAnswer (''No'' @ [NL]) \<noteq> ''yes''
   \<and> (\<exists>st'. turn False
          \<lparr>logFile = Inr [], response = Inr (''{'' @ quoted ''safe'' @ '':false,'' @ quoted ''command''
              @ '':'' @ quoted ''rm -rf x'' @ '','' @ quoted ''reason'' @ '':'' @ quoted ''clean'' @ '',''
              @ quoted ''is_final'' @ '':true,'' @ quoted ''needs_output'' @ '':false}''),
            stdin = ''No'' @ [NL], schedule = sequentialSchedule 5,
            launched = Started [] [] None\<rparr>
          newSession = Stopped UserCancelled st' \<and> executed st' = [])
   \<and> (\<exists>st'. main \<lparr>args = [''/usr/local/bin/ai'', ''clean'', ''up''], failure = None\<rparr>
          [\<lparr>logFile = Inr [], response = Inr (''{'' @ quoted ''safe'' @ '':false,'' @ quoted ''command''
              @ '':'' @ quoted ''rm -rf x'' @ '','' @ quoted ''reason'' @ '':'' @ quoted ''clean'' @ '',''
              @ quoted ''is_final'' @ '':true,'' @ quoted ''needs_output'' @ '':false}''),
            stdin = ''No'' @ [NL], schedule = sequentialSchedule 5,
            launched = Started [] [] None\<rparr>] = Some (0, st') \<and> executed st' = [])"
proof -
  let ?t = "''{'' @ quoted ''safe'' @ '':false,'' @ quoted ''command''
              @ '':'' @ quoted ''rm -rf x'' @ '','' @ quoted ''reason'' @ '':'' @ quoted ''clean'' @ '',''
              @ quoted ''is_final'' @ '':true,'' @ quoted ''needs_output'' @ '':false}''"
  let ?cmd = "\<lparr>Safe = False, Command = ''rm -rf x'', Reason = ''clean'', IsFinal = True,
               NeedsOutput = False\<rparr>"
  let ?env = "\<lparr>logFile = Inr [], response = Inr ?t, stdin = ''No'' @ [NL],
               schedule = sequentialSchedule 5, launched = Started [] [] None\<rparr>"
  let ?su = "\<lparr>args = [''/usr/local/bin/ai'', ''clean'', ''up''], failure = None\<rparr>"
  have p: "ParseCommandResponse ?t = Inr ?cmd" by code_simp
  have a: "readAnswer (''No'' @ [NL]) \<noteq> ''y''" "readAnswer (''No'' @ [NL]) \<noteq> ''yes''"
    by code_simp+
  have r: "response ?env = Inr ?t" by simp
  have u: "\<not> Safe ?cmd" by simp
  have a': "readAnswer (stdin ?env) \<noteq> ''y''" "readAnswer (stdin ?env) \<noteq> ''yes''"
    using a by simp_all
  have b: "2 \<le> length (args ?su) \<and> failure ?su = None \<and> Base (hd (args ?su)) \<noteq> ''ask''"
    by (simp add: Base_def)
  note d = declined_command_is_not_run[OF r p u a', where st = newSession and envs = "[]"
      and su = ?su]
  from d obtain st' where "turn False ?env newSession = Stopped UserCancelled st'"
    "executed st' = executed newSession" by blast
  moreover have "executed newSession = []" by (simp add: newSession_def)
  ultimately have one: "\<exists>st'. turn False ?env newSession = Stopped UserCancelled st'
      \<and> executed st' = []"
    by auto
  from d b have two: "\<exists>st'. main ?su [?env] = Some (0, st') \<and> executed st' = []" by blast
  from a one two show ?thesis by blast
qed




section \<open>Properties of StreamCommand\<close>

lemma run_invariant:
  assumes "P s0" and "\<And>t s. P s \<Longrightarrow> P (step t s)"
  shows "P (run sched s0)"
  using assms(1) by (induction sched arbitrary: s0) (simp_all add: assms(2))


lemma ofStream_Nil: "ofStream st [] = []"
  by (simp add: ofStream_def)

lemma signalInv_reader: "signalInv s \<Longrightarrow> signalInv (reader_step st s)"
proof (cases "rpc s st")
  case AtScan
  assume "signalInv s"
  with AtScan show ?thesis
    by (cases "Scan (unread s st)"; cases st)
       (auto simp: signalInv_def finishedReaders_def reader_step_def)
next
  case (AtHandler l)
  assume "signalInv s"
  with AtHandler show ?thesis
    by (cases st) (auto simp: signalInv_def finishedReaders_def reader_step_def)
next
  case (AtWrite l)
  assume "signalInv s"
  with AtWrite show ?thesis
    by (cases st) (auto simp: signalInv_def finishedReaders_def reader_step_def)
next
  case AtSignal
  assume "signalInv s"
  with AtSignal show ?thesis
    by (cases st; cases "doneChan s < 2")
       (auto simp: signalInv_def finishedReaders_def reader_step_def)
next
  case ReaderDone
  assume "signalInv s"
  with ReaderDone show ?thesis by (simp add: reader_step_def)
qed

lemma signalInv_step: "signalInv s \<Longrightarrow> signalInv (step t s)"
proof (cases t)
  case (Reader st)
  assume "signalInv s"
  then show ?thesis using Reader by (simp add: signalInv_reader)
next
  case Caller
  assume "signalInv s"
  then show ?thesis using Caller
    by (cases "cpc s")
       (auto simp: signalInv_def finishedReaders_def caller_step_def Let_def split: if_splits)
next
  case Child
  assume "signalInv s"
  then show ?thesis using Child by (simp add: signalInv_def finishedReaders_def)
qed

lemma scanInv_step: "scanInv s \<Longrightarrow> scanInv (step t s)"
proof (cases t)
  case (Reader st)
  assume "scanInv s"
  then show ?thesis using Reader
    by (auto simp: scanInv_def reader_step_def split: reader_pc.splits option.splits)
next
  case Caller
  assume "scanInv s"
  then show ?thesis using Caller
    by (auto simp: scanInv_def caller_step_def Let_def split: caller_pc.splits)
next
  case Child
  assume "scanInv s"
  then show ?thesis using Child by (simp add: scanInv_def)
qed

lemma waitInv_step: "waitInv s \<Longrightarrow> waitInv (step t s)"
proof (cases t)
  case (Reader st)
  assume "waitInv s"
  then show ?thesis using Reader
    by (auto simp: waitInv_def reader_step_def split: reader_pc.splits option.splits)
next
  case Caller
  assume "waitInv s"
  then show ?thesis using Caller
    by (auto simp: waitInv_def caller_step_def Let_def split: caller_pc.splits)
next
  case Child
  assume "waitInv s"
  then show ?thesis using Child by (simp add: waitInv_def)
qed






lemma signalInv_both_done:
  assumes "signalInv s" and "cpc s = AtWait \<or> cpc s = AtCollect \<or> cpc s = Returned"
  shows "rpc s st = ReaderDone"
proof -
  from assms have "finishedReaders s \<ge> 2" by (auto simp: signalInv_def)
  then have "rpc s Stdout = ReaderDone \<and> rpc s Stderr = ReaderDone"
    by (auto simp: finishedReaders_def split: if_splits)
  then show ?thesis by (cases st) simp_all
qed



lemma started_invariants:
  "signalInv (started out er w)" "scanInv (started out er w)" "waitInv (started out er w)"
  "writeInv (started out er w)" "returnInv (started out er w)"
  "lineInv (\<lambda>st. case st of Stdout \<Rightarrow> out | Stderr \<Rightarrow> er) (started out er w)"
  by (simp_all add: signalInv_def scanInv_def waitInv_def writeInv_def returnInv_def lineInv_def
      started_def finishedReaders_def ofStream_Nil)

lemma run_signalInv: "signalInv (run sched (started out er w))"
  by (rule run_invariant) (simp_all add: started_invariants signalInv_step)

lemma run_scanInv: "scanInv (run sched (started out er w))"
  by (rule run_invariant) (simp_all add: started_invariants scanInv_step)

lemma run_waitInv: "waitInv (run sched (started out er w))"
  by (rule run_invariant) (simp_all add: started_invariants waitInv_step)




lemma Index_takeWhile:
  "c \<in> set s \<Longrightarrow> Index s [c] = int (length (takeWhile (\<lambda>x. x \<noteq> c) s))"
  by (induction s) (auto simp: Let_def)

lemma Scan_None_iff: "(Scan d = None) = (d = [] \<or> tooLong d)"
proof (cases "NL \<in> set d")
  case True
  then have "Index d [NL] = int (length (takeWhile (\<lambda>x. x \<noteq> NL) d))" by (rule Index_takeWhile)
  with True show ?thesis by (auto simp: Scan_def tooLong_def Let_def)
next
  case False
  then have i: "Index d [NL] = -1" by (rule Index_char_absent)
  from False have tw: "takeWhile (\<lambda>x. x \<noteq> NL) d = d" by (auto simp: takeWhile_eq_all_conv)
  show ?thesis by (simp add: Scan_def tooLong_def Let_def i tw)
qed

text \<open>
  Claim C3, as the code has it. In every state of every run: once the caller has
  received both signals (it is at \<open>Wait\<close> or beyond), both readers have finished, and
  each reader's scanner has stopped, at the end of its stream or at a line too long for
  its buffer; the caller is past \<open>Wait\<close> only when the child has exited; and the call
  has returned only after all that.
\<close>

theorem StreamCommand_waits_for_readers:
  "(cpc (run sched (started out er w)) = AtWait
      \<or> cpc (run sched (started out er w)) = AtCollect
      \<or> cpc (run sched (started out er w)) = Returned
    \<longrightarrow> (\<forall>st. rpc (run sched (started out er w)) st = ReaderDone
              \<and> (unread (run sched (started out er w)) st = []
                   \<or> tooLong (unread (run sched (started out er w)) st))))
   \<and> (cpc (run sched (started out er w)) = AtCollect
        \<or> cpc (run sched (started out er w)) = Returned
       \<longrightarrow> exited (run sched (started out er w)))
   \<and> (returned (run sched (started out er w)) \<noteq> None
       \<longrightarrow> cpc (run sched (started out er w)) = Returned)"
proof -
  let ?s = "run sched (started out er w)"
  have a: "rpc ?s st = ReaderDone \<and> (unread ?s st = [] \<or> tooLong (unread ?s st))"
    if "cpc ?s = AtWait \<or> cpc ?s = AtCollect \<or> cpc ?s = Returned" for st
  proof -
    have d: "rpc ?s st = ReaderDone"
      using run_signalInv that by (rule signalInv_both_done)
    with run_scanInv[of sched out er w] have "Scan (unread ?s st) = None"
      by (simp add: scanInv_def)
    with d show ?thesis by (simp add: Scan_None_iff)
  qed
  from run_waitInv[of sched out er w] a show ?thesis by (simp add: waitInv_def)
qed


lemma tooLong_replicate:
  assumes "c \<noteq> NL" and "MaxScanTokenSize \<le> int n"
  shows "tooLong (replicate n c @ rest)"
proof -
  have "takeWhile (\<lambda>x. x \<noteq> NL) (replicate n c @ rest)
          = replicate n c @ takeWhile (\<lambda>x. x \<noteq> NL) rest"
    using assms(1) by (intro takeWhile_append2) simp
  with assms(2) show ?thesis by (simp add: tooLong_def)
qed

lemma Scan_Nil: "Scan [] = None"
  by (simp add: Scan_def)

theorem StreamCommand_waits_for_readers_witness:
  "cpc (run (sequentialSchedule 5) (started (''f1'' @ [NL]) [] None)) = Returned
   \<and> rpc (run (sequentialSchedule 5) (started (''f1'' @ [NL]) [] None)) Stdout = ReaderDone
   \<and> unread (run (sequentialSchedule 5) (started (''f1'' @ [NL]) [] None)) Stdout = []
   \<and> exited (run (sequentialSchedule 5) (started (''f1'' @ [NL]) [] None))"
proof -
  let ?s = "run (sequentialSchedule 5) (started (''f1'' @ [NL]) [] None)"
  have c: "cpc ?s = Returned" by (simp add: sequentialSchedule_5 shell_eval)
  have u: "unread ?s Stdout = []" by (simp add: sequentialSchedule_5 shell_eval)
  from StreamCommand_waits_for_readers[of "sequentialSchedule 5" "''f1'' @ [NL]" "[]" None] c u
  show ?thesis by simp
qed

text \<open>
  Claim C3 as stated fails for a line of 65536 bytes or more: the scanner gives up on it,
  the reader signals, and the call returns with an empty output while the whole of
  standard output, the later line included, has not been delivered.
\<close>

theorem StreamCommand_undrained_counterexample:
  "StreamCommand [Reader Stdout, Reader Stdout, Reader Stderr, Reader Stderr,
                  Child, Caller, Caller, Caller, Caller]
     (Started (replicate 65536 (CHR ''a'') @ NL # ''b'' @ [NL]) [] None)
     = Some \<lparr>handled = [], outputStr = [], err = None\<rparr>
   \<and> unread (run [Reader Stdout, Reader Stdout, Reader Stderr, Reader Stderr,
                   Child, Caller, Caller, Caller, Caller]
              (started (replicate 65536 (CHR ''a'') @ NL # ''b'' @ [NL]) [] None)) Stdout
     = replicate 65536 (CHR ''a'') @ NL # ''b'' @ [NL]"
proof -
  let ?out = "replicate 65536 (CHR ''a'') @ NL # ''b'' @ [NL]"
  have "tooLong ?out"
    by (rule tooLong_replicate) (simp_all add: NL_def MaxScanTokenSize_def)
  then have s: "Scan ?out = None" by (simp add: Scan_None_iff)
  let ?sched = "[Reader Stdout, Reader Stdout, Reader Stderr, Reader Stderr,
                  Child, Caller, Caller, Caller, Caller]"
  have r: "returned (run ?sched (started ?out [] None)) = Some ([], None)"
    using s by (simp add: started_def reader_step_def caller_step_def combinedOutput_def Scan_Nil)
  have h: "handlerCalls (run ?sched (started ?out [] None)) = []"
    using s by (simp add: started_def reader_step_def caller_step_def combinedOutput_def Scan_Nil)
  have u: "unread (run ?sched (started ?out [] None)) Stdout = ?out"
    using s by (simp add: started_def reader_step_def caller_step_def combinedOutput_def Scan_Nil)
  from StreamCommand_Started[OF r h] u show ?thesis by simp
qed









section \<open>Properties of the logger under concurrent calls\<close>

lemma logger_run_invariant:
  assumes "P s0" and "\<And>i s. P s \<Longrightarrow> P (logger_step i s)"
  shows "P (logger_run sched s0)"
  using assms(1) by (induction sched arbitrary: s0) (simp_all add: assms(2))

lemma loggerInv_init: "loggerInv file0 (logger_init file0 calls)"
  by (simp add: loggerInv_def logger_init_def partialEntry_def)

lemma prefix_snoc_keep: "prefix es xs \<Longrightarrow> prefix es (xs @ [x])"
  by (rule prefix_prefix)

lemma loggerInv_step:
  assumes "loggerInv file0 s"
  shows "loggerInv file0 (logger_step i s)"
proof -
  obtain pc calls where g: "goroutines s i = (pc, calls)" by (cases "goroutines s i")
  from assms have own: "\<And>j. (fst (goroutines s j) \<noteq> Outside) = (holder s = Some j)"
    and bytes: "logBytes s = file0 @ concat (completed s) @ partialEntry s"
    and seen: "\<forall>x \<in> set (tails s).
            \<exists>es. prefix es (completed s) \<and> snd x = GetRecentHistory (Inr (file0 @ concat es))"
    by (simp_all add: loggerInv_def)
  show ?thesis
  proof (cases pc)
    case Outside
    with own[of i] g have h: "holder s \<noteq> Some i" by simp
    show ?thesis
    proof (cases calls)
      case Nil
      with g Outside assms show ?thesis by (simp add: logger_step_def)
    next
      case (Cons c cs)
      show ?thesis
      proof (cases "holder s")
        case None
        with own have "\<And>j. fst (goroutines s j) = Outside" by simp
        with g Outside Cons None bytes seen show ?thesis
          by (auto simp: logger_step_def loggerInv_def partialEntry_def)
      next
        case (Some j)
        with g Outside Cons assms show ?thesis by (simp add: logger_step_def)
      qed
    qed
  next
    case (Writing written todo)
    with own[of i] g have h: "holder s = Some i" by simp
    with g Writing have p: "partialEntry s = written" by (simp add: partialEntry_def)
    from h own have others: "\<And>j. j \<noteq> i \<Longrightarrow> fst (goroutines s j) = Outside" by fastforce
    show ?thesis
    proof (cases todo)
      case Nil
      with g Writing h p bytes seen others show ?thesis
        by (auto simp: logger_step_def loggerInv_def partialEntry_def intro: prefix_snoc_keep)
    next
      case (Cons b bs)
      with g Writing h p bytes seen others show ?thesis
        by (auto simp: logger_step_def loggerInv_def partialEntry_def)
    qed
  next
    case Reading
    with own[of i] g have h: "holder s = Some i" by simp
    with g Reading have p: "partialEntry s = []" by (simp add: partialEntry_def)
    from h own have others: "\<And>j. j \<noteq> i \<Longrightarrow> fst (goroutines s j) = Outside" by fastforce
    have "\<exists>es. prefix es (completed s)
             \<and> GetRecentHistory (Inr (logBytes s)) = GetRecentHistory (Inr (file0 @ concat es))"
      using bytes p by (intro exI[of _ "completed s"]) simp
    with g Reading h p bytes seen others show ?thesis
      by (auto simp: logger_step_def loggerInv_def partialEntry_def)
  next
    case ReadDone
    with own[of i] g have h: "holder s = Some i" by simp
    with g ReadDone have p: "partialEntry s = []" by (simp add: partialEntry_def)
    from h own have others: "\<And>j. j \<noteq> i \<Longrightarrow> fst (goroutines s j) = Outside" by fastforce
    with g ReadDone h p bytes seen others show ?thesis
      by (auto simp: logger_step_def loggerInv_def partialEntry_def)
  qed
qed


lemma loggerInv_run: "loggerInv file0 (logger_run sched (logger_init file0 calls))"
  by (rule logger_run_invariant) (simp_all add: loggerInv_init loggerInv_step)

lemma callsInv_init: "callsInv calls (logger_init file0 calls)"
  by (simp add: callsInv_def logger_init_def)

lemma suffix_tl_in: "suffix (c # cs) xs \<Longrightarrow> suffix cs xs \<and> c \<in> set xs"
  by (auto simp: suffix_def)

lemma callsInv_step:
  assumes "callsInv calls s"
  shows "callsInv calls (logger_step i s)"
proof -
  obtain pc cs where g: "goroutines s i = (pc, cs)" by (cases "goroutines s i")
  from assms have rest: "\<And>j. suffix (snd (goroutines s j)) (calls j)"
    and cur: "\<And>j written todo. fst (goroutines s j) = Writing written todo
            \<Longrightarrow> \<exists>c \<in> set (calls j). written @ todo = entryOf c"
    and don: "\<forall>e \<in> set (completed s). \<exists>j. \<exists>c \<in> set (calls j). e = entryOf c"
    by (simp_all add: callsInv_def)
  from rest[of i] g have ri: "suffix cs (calls i)" by simp
  show ?thesis
  proof (cases pc)
    case Outside
    show ?thesis
    proof (cases cs)
      case Nil
      with g Outside assms show ?thesis by (simp add: logger_step_def)
    next
      case (Cons c cs')
      with rest[of i] g have "suffix cs' (calls i)" "c \<in> set (calls i)"
        by (simp_all add: suffix_tl_in)
      with g Outside Cons rest cur don show ?thesis
        by (auto simp: logger_step_def callsInv_def)
    qed
  next
    case (Writing written todo)
    from cur[of i written todo] g Writing
    obtain c where c: "c \<in> set (calls i)" "written @ todo = entryOf c" by auto
    show ?thesis
    proof (cases todo)
      case Nil
      with g Writing c rest ri cur don show ?thesis
        by (auto simp: logger_step_def callsInv_def)
    next
      case (Cons b bs)
      with g Writing c rest ri cur don show ?thesis
        by (auto simp: logger_step_def callsInv_def)
    qed
  next
    case Reading
    with g rest ri cur don show ?thesis by (auto simp: logger_step_def callsInv_def)
  next
    case ReadDone
    with g rest ri cur don show ?thesis by (auto simp: logger_step_def callsInv_def)
  qed
qed

lemma callsInv_run: "callsInv calls (logger_run sched (logger_init file0 calls))"
  by (rule logger_run_invariant) (simp_all add: callsInv_init callsInv_step)

text \<open>
  Claim C8. Under every schedule of the goroutines and whatever calls they make: every
  result a call of \<open>GetRecentHistory\<close> returns is the tail of a file that consists of
  the initial file and the entries of the first so many completed writing calls, each
  entry whole; at every moment the file is the initial file, then the completed entries
  one after the other, then the part written so far of the one entry in progress, which
  belongs to the goroutine holding the mutex; and every completed entry is the entry of
  one of the calls.
\<close>

theorem tail_sees_only_whole_entries:
  "(\<forall>x \<in> set (tails (logger_run sched (logger_init file0 calls))).
      \<exists>es. prefix es (completed (logger_run sched (logger_init file0 calls)))
         \<and> snd x = GetRecentHistory (Inr (file0 @ concat es)))
   \<and> logBytes (logger_run sched (logger_init file0 calls))
       = file0 @ concat (completed (logger_run sched (logger_init file0 calls)))
         @ partialEntry (logger_run sched (logger_init file0 calls))
   \<and> (holder (logger_run sched (logger_init file0 calls)) = None
        \<longrightarrow> partialEntry (logger_run sched (logger_init file0 calls)) = [])
   \<and> (\<forall>i. (fst (goroutines (logger_run sched (logger_init file0 calls)) i) \<noteq> Outside)
            = (holder (logger_run sched (logger_init file0 calls)) = Some i))
   \<and> (\<forall>e \<in> set (completed (logger_run sched (logger_init file0 calls))).
         \<exists>i. \<exists>c \<in> set (calls i). e = entryOf c)"
  using loggerInv_run[of file0 sched calls] callsInv_run[of calls sched file0]
  by (simp add: loggerInv_def callsInv_def partialEntry_def)

theorem tail_sees_only_whole_entries_witness:
  "tails (logger_run [0, 0, 1, 0, 1, 0, 1, 1, 1]
            (logger_init ''x'' (\<lambda>i. if i = 0 then [CallLogStreamOutput ''ab'']
                                      else if i = 1 then [CallGetRecentHistory] else [])))
     = [(1, GetRecentHistory (Inr ''xab''))]
   \<and> completed (logger_run [0, 0, 1, 0, 1, 0, 1, 1, 1]
            (logger_init ''x'' (\<lambda>i. if i = 0 then [CallLogStreamOutput ''ab'']
                                      else if i = 1 then [CallGetRecentHistory] else [])))
     = [''ab'']
   \<and> (\<exists>es. prefix es [''ab''] \<and> GetRecentHistory (Inr ''xab'') = GetRecentHistory (Inr (''x'' @ concat es)))"
proof -
  let ?s = "logger_run [0, 0, 1, 0, 1, 0, 1, 1, 1]
            (logger_init ''x'' (\<lambda>i. if i = 0 then [CallLogStreamOutput ''ab'']
                                      else if i = 1 then [CallGetRecentHistory] else []))"
  have t: "tails ?s = [(1, GetRecentHistory (Inr ''xab''))]"
    by (simp add: logger_init_def logger_step_def)
  have c: "completed ?s = [''ab'']"
    by (simp add: logger_init_def logger_step_def)
  from tail_sees_only_whole_entries[of "[0, 0, 1, 0, 1, 0, 1, 1, 1]" "''x''"
      "\<lambda>i. if i = 0 then [CallLogStreamOutput ''ab''] else if i = 1 then [CallGetRecentHistory] else []"]
  have "\<forall>x \<in> set (tails ?s). \<exists>es. prefix es (completed ?s)
         \<and> snd x = GetRecentHistory (Inr (''x'' @ concat es))"
    by (rule conjunct1)
  then have "\<exists>es. prefix es [''ab''] \<and> GetRecentHistory (Inr ''xab'') = GetRecentHistory (Inr (''x'' @ concat es))"
    unfolding t c by simp
  with t c show ?thesis by (intro conjI)
qed

end
